theory Spec2Isabelle
  imports Main
begin

section \<open>The FOSSology scheduler: \<open>src/scheduler/agent/scheduler.c\<close>\<close>

text \<open>
  The file embeds the functions of \<open>scheduler.c\<close>. The collaborators the file calls
  (\<open>agent.c\<close>, \<open>host.c\<close>, \<open>job.c\<close>, \<open>event.c\<close>, \<open>logging.h\<close>) and the operating
  system are made explicit: each state below carries what the collaborator or the kernel
  would answer, and a trace of the calls the scheduler makes. Output written with
  \<open>lprintf\<close>, \<open>clprintf\<close> and \<open>fprintf\<close> changes no control flow and is left out.
\<close>

subsection \<open>Events and signals\<close>

text \<open>
  An event is the callback that the loop will run, with its argument: the PID array for
  \<open>agent_death_event\<close>, \<open>NULL\<close> for the others.
\<close>

datatype event =
    Agent_death_event "int list"
  | Agent_update_event
  | Database_update_event
  | Scheduler_close_event
  | Load_config_event

text \<open>
  The children of the process as the kernel sees them: the PIDs of the children that
  have died and were not waited for yet, in the order \<open>waitpid\<close> reports them, and the
  number of children still running.
\<close>

record children =
  zombies :: "int list"
  running :: nat

text \<open>
  \<open>waitpid(-1, &status, options)\<close>: the PID of a dead child, which is thereby reaped;
  \<open>-1\<close> (\<open>ECHILD\<close>) when the process has no child at all; with \<open>WNOHANG\<close> the value
  \<open>0\<close> when children exist and none has died. Without \<open>WNOHANG\<close> the last case does
  not return: the call blocks, which is \<open>None\<close>.
\<close>

definition waitpid :: "bool \<Rightarrow> children \<Rightarrow> (int \<times> children) option" where
  "waitpid wnohang ch =
     (case zombies ch of
        z # zs \<Rightarrow> Some (z, ch\<lparr>zombies := zs\<rparr>)
      | [] \<Rightarrow> if running ch = 0 then Some (- 1, ch)
              else if wnohang then Some (0, ch)
              else None)"

text \<open>
  The ways a function models not returning normally: a blocking system call, a store
  past the end of an array, \<open>exit(code)\<close>, and the dereference of a null pointer.
\<close>

datatype stop = Blocked | Out_of_bounds | Exit int | Segfault

text \<open>
  The loop of \<open>chld_sig\<close>:
  \<^verbatim>\<open>while((n = waitpid(-1, &status, WNOHANG)) > 0) pid_list[idx++] = n;\<close>
  \<open>pid_list\<close> is the array allocated by the caller; a store at an index that is not
  below its length writes past the allocation, which is \<open>Out_of_bounds\<close>.
\<close>

function reap :: "children \<Rightarrow> int list \<Rightarrow> nat \<Rightarrow> stop + (int list \<times> nat \<times> children)" where
  "reap ch pid_list idx =
     (case waitpid True ch of
        None \<Rightarrow> Inl Blocked
      | Some (n, ch') \<Rightarrow>
          if 0 < n then
            (if idx < length pid_list then reap ch' (pid_list[idx := n]) (Suc idx)
             else Inl Out_of_bounds)
          else Inr (pid_list, idx, ch'))"
  by pat_completeness auto
termination
  by (relation "measure (\<lambda>(ch, pid_list, idx). length (zombies ch))")
     (auto simp: waitpid_def split: list.splits if_splits)

declare reap.simps [simp del]

text \<open>
  The state the signal handlers work on: the event FIFO, the children, the value that
  \<open>num_agents()\<close> of \<open>agent.c\<close> returns when the signal arrives, the pending alarm,
  the global \<open>s_port\<close>, and the trace of the calls into the host and agent registries
  made so far.
\<close>

datatype config_call =
    Host_list_clean
  | Fo_config_load_default
  | Set_port int
  | Host_init string string string int
  | Agent_list_clean
  | Add_meta_agent string string int bool
  | For_each_host_test_agents

record sig_state =
  events :: "event list"
  procs :: children
  agents_now :: nat
  alarm :: "nat option"
  s_port :: int
  config_trace :: "config_call list"

text \<open>
  Modelled from the spec: \<open>event_signal\<close> of \<open>event.c\<close> is not among the sources; it
  appends one event to the FIFO of the loop, behind the events already there.
\<close>

definition event_signal :: "event \<Rightarrow> sig_state \<Rightarrow> sig_state" where
  "event_signal e s = s\<lparr>events := events s @ [e]\<rparr>"

text \<open>
  \<open>chld_sig\<close>: \<open>g_new0(pid_t, num_agents() + 1)\<close> gives \<open>num_agents() + 1\<close> zeroed
  slots; the loop fills them from index 0; the array goes to the event loop with
  \<open>agent_death_event\<close>.
\<close>

definition chld_sig :: "sig_state \<Rightarrow> stop + sig_state" where
  "chld_sig s =
     (let pid_list = replicate (agents_now s + 1) (0::int) in
      case reap (procs s) pid_list 0 of
        Inl f \<Rightarrow> Inl f
      | Inr (pid_list', idx, ch') \<Rightarrow>
          Inr (event_signal (Agent_death_event pid_list') (s\<lparr>procs := ch'\<rparr>)))"

subsection \<open>Configuration and the other signals\<close>

text \<open>
  Constants of the build that \<open>scheduler.h\<close> and the makefile define: the interval of
  the alarm and the agent directory of the local host.
\<close>

record constants =
  check_time :: nat
  agent_dir :: string

text \<open>
  What the configuration files hold when they are read, as \<open>fossconfig\<close> reports it:
  whether the main file loads; the value of \<open>FOSSOLOGY.port\<close>; for every key of
  \<open>HOSTS\<close> the address, directory and maximum scanned from its value, or \<open>None\<close> when
  \<open>fo_config_get\<close> reports an error for the key; whether the directory
  \<open>mods-enabled\<close> can be opened; and, for every agent file that loads with all its
  keys, the name, command, maximum and whether the \<open>special\<close> list has \<open>EXCLUSIVE\<close>.
\<close>

record config =
  load_ok :: bool
  conf_port :: int
  conf_hosts :: "(string \<times> (string \<times> string \<times> int) option) list"
  agent_dir_ok :: bool
  conf_agents :: "(string \<times> string \<times> int \<times> bool) list"

text \<open>
  Modelled from the spec: the macro \<open>FATAL\<close> of \<open>logging.h\<close> is not among the sources;
  a fatal error ends the process with a negative exit code.
\<close>

definition fatal :: stop where
  "fatal = Exit (- 1)"

fun host_inits :: "constants \<Rightarrow> (string \<times> (string \<times> string \<times> int) option) list \<Rightarrow> config_call list" where
  "host_inits k [] = []"
| "host_inits k ((key, None) # es) = host_inits k es"
| "host_inits k ((key, Some (addr, dir, mx)) # es) =
     Host_init key addr (if addr = ''localhost'' then agent_dir k else dir) mx
       # host_inits k es"

definition load_foss_config :: "constants \<Rightarrow> config \<Rightarrow> sig_state \<Rightarrow> stop + sig_state" where
  "load_foss_config k cfg s =
     (let s1 = s\<lparr>config_trace := config_trace s @ [Host_list_clean, Fo_config_load_default]\<rparr> in
      if \<not> load_ok cfg then Inl fatal
      else
        let port = (if s_port s1 < 0 then conf_port cfg else s_port s1);
            s2 = s1\<lparr>s_port := port, config_trace := config_trace s1 @ [Set_port port]\<rparr>
        in Inr (s2\<lparr>config_trace := config_trace s2 @ host_inits k (conf_hosts cfg)\<rparr>))"

definition load_agent_config :: "config \<Rightarrow> sig_state \<Rightarrow> stop + sig_state" where
  "load_agent_config cfg s =
     (let s1 = s\<lparr>config_trace := config_trace s @ [Agent_list_clean]\<rparr> in
      if \<not> agent_dir_ok cfg then Inl fatal
      else Inr (s1\<lparr>config_trace := config_trace s1
                  @ map (\<lambda>(name, cmd, mx, special). Add_meta_agent name cmd mx special)
                      (conf_agents cfg)
                  @ [For_each_host_test_agents]\<rparr>))"

definition load_config :: "constants \<Rightarrow> config \<Rightarrow> sig_state \<Rightarrow> stop + sig_state" where
  "load_config k cfg s =
     (case load_foss_config k cfg s of
        Inl e \<Rightarrow> Inl e
      | Inr s1 \<Rightarrow> load_agent_config cfg s1)"

datatype signal = SIGCHLD | SIGALRM | SIGTERM | SIGQUIT | SIGINT | SIGHUP | SIGUSR1

definition prnt_sig :: "constants \<Rightarrow> config \<Rightarrow> signal \<Rightarrow> sig_state \<Rightarrow> stop + sig_state" where
  "prnt_sig k cfg signo s =
     (case signo of
        SIGALRM \<Rightarrow>
          Inr ((event_signal Database_update_event (event_signal Agent_update_event s))
                 \<lparr>alarm := Some (check_time k)\<rparr>)
      | SIGTERM \<Rightarrow> Inr (event_signal Scheduler_close_event s)
      | SIGQUIT \<Rightarrow> Inr (event_signal Scheduler_close_event s)
      | SIGINT \<Rightarrow> Inr (event_signal Scheduler_close_event s)
      | SIGHUP \<Rightarrow> load_config k cfg s
      | _ \<Rightarrow> Inr s)"

subsection \<open>The scheduling policy\<close>

record job =
  job_id :: nat
  job_type :: string

record host =
  host_name :: string
  max_agents :: nat
  running_agents :: nat

record meta_agent =
  meta_name :: string
  exclusive :: bool

record agent =
  agent_job :: job
  agent_host :: string

text \<open>The calls of \<open>update_scheduler\<close> into the job queue and the agent supervisor.\<close>

datatype call = Next_job "job option" | Agent_init "string option" job

text \<open>
  The state of the policy and of its collaborators: the global \<open>closing\<close>; the two
  static variables of \<open>update_scheduler\<close>, \<open>j\<close> (here \<open>deferred\<close>) and \<open>lockout\<close>; the
  pending jobs in the order \<open>next_job\<close> delivers them; the jobs it has delivered that
  are neither launched nor released; the live agents; the hosts in registration order;
  the meta agents; whether \<open>event_loop_terminate\<close> was called; and the trace of calls.
\<close>

record sched =
  closing :: bool
  deferred :: "job option"
  lockout :: bool
  job_queue :: "job list"
  claimed :: "job list"
  agents :: "agent list"
  host_list :: "host list"
  meta_agents :: "meta_agent list"
  loop_terminated :: bool
  calls :: "call list"

text \<open>
  Modelled from the spec: \<open>num_agents\<close> of \<open>agent.c\<close> is not among the sources; it is the
  number of live agents.
\<close>

definition num_agents :: "sched \<Rightarrow> nat" where
  "num_agents s = length (agents s)"

text \<open>
  Modelled from the spec: \<open>active_jobs\<close> of \<open>job.c\<close> is not among the sources; it is the
  number of jobs that are running or that \<open>next_job\<close> has returned and that are not yet
  launched or released.
\<close>

definition active_jobs :: "sched \<Rightarrow> nat" where
  "active_jobs s = length (claimed s) + length (agents s)"

text \<open>
  Modelled from the spec: \<open>next_job\<close> of \<open>job.c\<close> is not among the sources; it returns
  the first pending job, which is then claimed, or null, without any other effect, when
  there is none.
\<close>

definition next_job :: "sched \<Rightarrow> job option \<times> sched" where
  "next_job s =
     (case job_queue s of
        [] \<Rightarrow> (None, s\<lparr>calls := calls s @ [Next_job None]\<rparr>)
      | x # q \<Rightarrow> (Some x, s\<lparr>job_queue := q, claimed := claimed s @ [x],
                              calls := calls s @ [Next_job (Some x)]\<rparr>))"

text \<open>
  Modelled from the spec: \<open>is_exclusive\<close> of \<open>agent.c\<close> is not among the sources; it
  tells whether the meta agent registered under the type name has the flag \<open>EXCLUSIVE\<close>.
\<close>

definition is_exclusive :: "string \<Rightarrow> sched \<Rightarrow> bool" where
  "is_exclusive t s =
     (case find (\<lambda>m. meta_name m = t) (meta_agents s) of
        None \<Rightarrow> False
      | Some m \<Rightarrow> exclusive m)"

text \<open>
  Modelled from the spec: \<open>get_host\<close> of \<open>host.c\<close> is not among the sources; it returns
  the first host, in registration order, with at least \<open>n\<close> free slots, or null.
\<close>

definition get_host :: "nat \<Rightarrow> sched \<Rightarrow> host option" where
  "get_host n s = find (\<lambda>h. running_agents h + n \<le> max_agents h) (host_list s)"

fun occupy :: "string \<Rightarrow> host list \<Rightarrow> host list" where
  "occupy n [] = []"
| "occupy n (h # hs) =
     (if host_name h = n then h\<lparr>running_agents := running_agents h + 1\<rparr> # hs
      else h # occupy n hs)"

text \<open>
  Modelled from the spec: \<open>agent_init\<close> of \<open>agent.c\<close> is not among the sources. It is the
  supervisor's launch: with a host that has a free slot and a meta agent registered for
  the type of the job, a new agent becomes live on the host, whose count of running
  agents grows by one, and the job becomes running; without a host, without a free slot
  or without a meta agent nothing is launched. The spawn itself is taken to succeed.
\<close>

definition agent_init :: "host option \<Rightarrow> job \<Rightarrow> sched \<Rightarrow> sched" where
  "agent_init ho x s =
     (let s' = s\<lparr>calls := calls s @ [Agent_init (map_option host_name ho) x]\<rparr> in
      case ho of
        None \<Rightarrow> s'
      | Some h \<Rightarrow>
          if find (\<lambda>m. meta_name m = job_type x) (meta_agents s) = None then s'
          else if running_agents h < max_agents h then
            s'\<lparr>host_list := occupy (host_name h) (host_list s),
               agents := agents s @ [\<lparr>agent_job = x, agent_host = host_name h\<rparr>],
               claimed := remove1 x (claimed s)\<rparr>
          else s')"

text \<open>
  Modelled from the spec: \<open>event_loop_terminate\<close> of \<open>event.c\<close> is not among the
  sources; it sets the flag that ends the loop, and setting it again changes nothing.
\<close>

definition event_loop_terminate :: "sched \<Rightarrow> sched" where
  "event_loop_terminate s = s\<lparr>loop_terminated := True\<rparr>"

text \<open>
  The loop of \<open>update_scheduler\<close>:
  \<^verbatim>\<open>while((j = next_job()) != NULL) {
    if(is_exclusive(job_type(j))) break;
    agent_init(get_host(1), j, 0); }\<close>
  The static \<open>j\<close> is assigned at every turn, so it is null when the queue runs dry and
  holds the exclusive job after the \<open>break\<close>.
\<close>

function pull_jobs :: "sched \<Rightarrow> sched" where
  "pull_jobs s =
     (case next_job s of
        (None, s') \<Rightarrow> s'\<lparr>deferred := None\<rparr>
      | (Some x, s') \<Rightarrow>
          if is_exclusive (job_type x) s' then s'\<lparr>deferred := Some x\<rparr>
          else pull_jobs (agent_init (get_host 1 s') x (s'\<lparr>deferred := Some x\<rparr>)))"
  by pat_completeness auto
termination
  by (relation "measure (\<lambda>s. length (job_queue s))")
     (auto simp: next_job_def agent_init_def Let_def split: list.splits option.splits)

declare pull_jobs.simps [simp del]

text \<open>
  \<open>update_scheduler\<close>, the callback of the event loop. The two counts are read once, on
  entry, into the locals \<open>n_agents\<close> and \<open>n_jobs\<close>, and every test below uses the locals.
\<close>

definition update_scheduler :: "sched \<Rightarrow> sched" where
  "update_scheduler s =
     (let n_agents = num_agents s; n_jobs = active_jobs s in
      if closing s \<and> n_agents = 0 \<and> n_jobs = 0 then event_loop_terminate s
      else
        let s1 = (if lockout s \<and> n_agents = 0 \<and> n_jobs = 0 then s\<lparr>lockout := False\<rparr> else s);
            s2 = (if deferred s1 = None \<and> \<not> lockout s1 then pull_jobs s1 else s1)
        in case deferred s2 of
             Some x \<Rightarrow>
               if n_agents = 0 \<and> n_jobs = 0
               then (agent_init (get_host 1 s2) x s2)\<lparr>lockout := True, deferred := None\<rparr>
               else s2
           | None \<Rightarrow> s2)"

text \<open>The jobs that a trace pulls from the queue, and the jobs it hands to \<open>agent_init\<close>.\<close>

fun pulls :: "call list \<Rightarrow> job option list" where
  "pulls [] = []"
| "pulls (Next_job r # cs) = r # pulls cs"
| "pulls (Agent_init h x # cs) = pulls cs"

fun launches :: "call list \<Rightarrow> job list" where
  "launches [] = []"
| "launches (Next_job r # cs) = launches cs"
| "launches (Agent_init h x # cs) = x # launches cs"

subsection \<open>The process lock\<close>

text \<open>
  Decimal text. \<open>dec\<close> is what \<open>%d\<close> prints for a natural number; \<open>sprintf_9_9d\<close> is
  the text of \<open>sprintf(buf, "%-9.9d", v)\<close>: the precision pads the digits with zeros to
  at least nine, the width pads the whole on the right with blanks to at least nine.
\<close>

definition digit_char :: "nat \<Rightarrow> char" where
  "digit_char d = char_of (48 + d)"

fun dec :: "nat \<Rightarrow> string" where
  "dec n = (if n < 10 then [digit_char n] else dec (n div 10) @ [digit_char (n mod 10)])"

declare dec.simps [simp del]

definition sprintf_9_9d :: "int \<Rightarrow> string" where
  "sprintf_9_9d v =
     (let ds = dec (nat \<bar>v\<bar>);
          zs = replicate (9 - length ds) (CHR ''0'') @ ds;
          t = (if v < 0 then CHR ''-'' # zs else zs)
      in t @ replicate (9 - length t) (CHR '' ''))"

text \<open>
  \<open>atoi\<close>: white space is skipped, a sign is read, and the digits up to the first
  character that is not one give the value. The end of the list stands for the
  terminating null byte. The texts read here have at most ten characters; the overflow
  of \<open>int\<close>, which ten digits can reach, is not modelled.
\<close>

definition isdigit :: "char \<Rightarrow> bool" where
  "isdigit c = (48 \<le> (of_char c :: nat) \<and> (of_char c :: nat) \<le> 57)"

definition isspace :: "char \<Rightarrow> bool" where
  "isspace c = ((of_char c :: nat) = 32 \<or> 9 \<le> (of_char c :: nat) \<and> (of_char c :: nat) \<le> 13)"

definition digit_val :: "char \<Rightarrow> int" where
  "digit_val c = int (of_char c) - 48"

fun atoi_digits :: "int \<Rightarrow> string \<Rightarrow> int" where
  "atoi_digits acc [] = acc"
| "atoi_digits acc (c # cs) =
     (if isdigit c then atoi_digits (acc * 10 + digit_val c) cs else acc)"

fun atoi :: "string \<Rightarrow> int" where
  "atoi [] = 0"
| "atoi (c # cs) =
     (if isspace c then atoi cs
      else if c = CHR ''-'' then - atoi_digits 0 cs
      else if c = CHR ''+'' then atoi_digits 0 cs
      else atoi_digits 0 (c # cs))"

text \<open>
  The operating system as the lock sees it: the contents of the shared-memory object
  named \<open>PROCESS_NAME\<close>, or \<open>None\<close> when there is none; whether the object can be opened
  for reading, whether it can be unlinked and whether a write to it succeeds; and the
  PIDs that \<open>kill(pid, 0)\<close> accepts.
\<close>

record lock_os =
  shm :: "string option"
  shm_readable :: bool
  unlink_ok :: bool
  write_ok :: bool
  alive :: "int list"

definition shm_unlink :: "lock_os \<Rightarrow> lock_os" where
  "shm_unlink os = (if unlink_ok os then os\<lparr>shm := None\<rparr> else os)"

definition unlock_scheduler :: "lock_os \<Rightarrow> lock_os" where
  "unlock_scheduler os = shm_unlink os"

text \<open>
  \<open>get_locked_pid\<close>: ten bytes of the object are read into a zeroed buffer and parsed;
  a value below 2 is an invalid lock, which is removed; a PID that \<open>kill(pid, 0)\<close>
  rejects is a stale lock, which is removed too.
\<close>

definition get_locked_pid :: "lock_os \<Rightarrow> int \<times> lock_os" where
  "get_locked_pid os =
     (case shm os of
        None \<Rightarrow> (0, os)
      | Some contents \<Rightarrow>
          if \<not> shm_readable os then (0, os)
          else
            let pid = atoi (take 10 contents) in
            if pid < 2 then (0, shm_unlink os)
            else if pid \<in> set (alive os) then (pid, os)
            else (0, unlock_scheduler os))"

text \<open>
  \<open>lock_scheduler\<close> for the process \<open>self\<close>: the PID of a live owner when there is
  one; \<open>-1\<close> when the object cannot be created exclusively or cannot be written; \<open>0\<close>
  when the lock was created. The buffer has ten bytes, for the text and its null byte.
  The object is created with mode 0744, so it can be read afterwards.
\<close>

definition lock_scheduler :: "int \<Rightarrow> lock_os \<Rightarrow> stop + (int \<times> lock_os)" where
  "lock_scheduler self os =
     (case get_locked_pid os of
        (pid, os1) \<Rightarrow>
          if pid \<noteq> 0 then Inr (pid, os1)
          else if shm os1 \<noteq> None then Inr (- 1, os1)
          else
            let buf = sprintf_9_9d self @ [CHR 0x00] in
            if 10 < length buf then Inl Out_of_bounds
            else if \<not> write_ok os1 then Inr (- 1, os1\<lparr>shm := Some [], shm_readable := True\<rparr>)
            else Inr (0, os1\<lparr>shm := Some buf, shm_readable := True\<rparr>))"

subsection \<open>Privileges\<close>

text \<open>
  What \<open>set_usr_grp\<close> meets: the group id of \<open>PROJECT_GROUP\<close> and the user id of
  \<open>PROJECT_USER\<close> when they exist, and whether each call succeeds. The last field is
  what \<open>event_signal\<close> does when it is called before the event loop is set up, as
  \<open>set_usr_grp\<close> calls it: \<open>event.c\<close> is not among the sources, so this is a parameter,
  \<open>None\<close> when the call enqueues the event and returns, and otherwise the way the
  process stops inside the call.
\<close>

record priv_env =
  group_entry :: "nat option"
  setgroups_ok :: bool
  setgid_ok :: bool
  setegid_ok :: bool
  passwd_entry :: "nat option"
  setuid_ok :: bool
  seteuid_ok :: bool
  early_event_signal :: "stop option"

datatype priv_call = Setgroups nat | Setgid nat | Setegid nat | Setuid nat | Seteuid nat

text \<open>
  \<open>set_usr_grp\<close>. The branch for a missing group is empty in the source, so the next
  line reads \<open>grp->gr_gid\<close> through a null pointer. The result of \<open>setgroups\<close> is not
  looked at. \<open>||\<close> does not evaluate its right side when the left one holds. The branch
  for a failed \<open>setgid\<close> or \<open>setegid\<close> begins with
  \<^verbatim>\<open>{event_signal(database_update_event, NULL);\<close>
  and goes on to \<open>exit(-1)\<close>; the two other failure branches call \<open>exit(-1)\<close> at once.
  The result is the list of the events that were enqueued, and then either the way the
  process stopped or, on a normal return, the list of the system calls made.
\<close>

definition set_usr_grp :: "priv_env \<Rightarrow> event list \<times> (stop + priv_call list)" where
  "set_usr_grp e =
     (case group_entry e of
        None \<Rightarrow> ([], Inl Segfault)
      | Some gid \<Rightarrow>
          if \<not> setgid_ok e \<or> \<not> setegid_ok e then
            (case early_event_signal e of
               Some st \<Rightarrow> ([], Inl st)
             | None \<Rightarrow> ([Database_update_event], Inl (Exit (- 1))))
          else
            (case passwd_entry e of
               None \<Rightarrow> ([], Inl (Exit (- 1)))
             | Some uid \<Rightarrow>
                 if \<not> setuid_ok e \<or> \<not> seteuid_ok e then ([], Inl (Exit (- 1)))
                 else ([], Inr [Setgroups gid, Setgid gid, Setegid gid, Setuid uid,
                                Seteuid uid])))"

subsection \<open>\<open>main\<close>\<close>

record options =
  parse_error :: bool
  s_daemon :: bool
  db_init :: bool
  ki_sched :: bool
  log_file :: "string option"
  port_option :: "int option"
  db_reset :: bool
  test_die :: bool

text \<open>
  What \<open>main\<close> does, in order: the calls into the collaborators and the handlers it
  installs. \<open>Signal sig True\<close> installs \<open>chld_sig\<close>, \<open>Signal sig False\<close> installs
  \<open>prnt_sig\<close>.
\<close>

datatype action =
    Daemon
  | Database_init
  | Kill_scheduler
  | Set_log string
  | G_thread_init
  | G_type_init
  | Fo_RepOpen
  | Agent_list_init
  | Host_list_init
  | Job_list_init
  | Load_foss_config
  | Interface_init
  | Load_agent_config
  | Signal signal bool
  | Database_reset_queue
  | Set_closing
  | Event_signal event
  | Alarm nat
  | Event_loop_enter

datatype outcome = Stopped stop | Entered_event_loop

definition install_handlers :: "action list" where
  "install_handlers =
     [Signal SIGCHLD True, Signal SIGALRM False, Signal SIGTERM False,
      Signal SIGQUIT False, Signal SIGINT False, Signal SIGHUP False]"

text \<open>
  The test of \<open>main\<close> on the lock,
  \<^verbatim>\<open>if(lock_scheduler() <= 0 && !get_locked_pid()) FATAL("scheduler lock error");\<close>
  \<open>Inr True\<close> when \<open>main\<close> goes on, \<open>Inr False\<close> when it calls \<open>FATAL\<close>. The second call
  is made only when the first returned a value that is not positive.
\<close>

definition lock_test :: "int \<Rightarrow> lock_os \<Rightarrow> stop + (bool \<times> lock_os)" where
  "lock_test self os =
     (case lock_scheduler self os of
        Inl e \<Rightarrow> Inl e
      | Inr (r, os1) \<Rightarrow>
          if r \<le> 0 then
            (case get_locked_pid os1 of
               (pid, os2) \<Rightarrow> Inr (pid \<noteq> 0, os2))
          else Inr (True, os1))"

text \<open>
  \<open>main\<close> up to the call of \<open>event_loop_enter\<close>, for the process \<open>self\<close>: the actions it
  performed, with the events that \<open>set_usr_grp\<close> enqueued among them, and how it ended.
\<close>

definition main :: "constants \<Rightarrow> config \<Rightarrow> options \<Rightarrow> priv_env \<Rightarrow> int \<Rightarrow> lock_os
    \<Rightarrow> action list \<times> outcome" where
  "main k cfg opts pe self os =
     (if parse_error opts then ([], Stopped (Exit (- 1)))
      else
        case set_usr_grp pe of
          (evs, Inl e) \<Rightarrow> (map Event_signal evs, Stopped e)
        | (evs, Inr _) \<Rightarrow>
            let t1 = map Event_signal evs @ (if s_daemon opts then [Daemon] else []) in
            if db_init opts then (t1 @ [Database_init], Stopped (Exit 0))
            else if ki_sched opts then (t1 @ [Kill_scheduler], Stopped (Exit 0))
            else
              let t2 = t1 @ (case log_file opts of None \<Rightarrow> [] | Some f \<Rightarrow> [Set_log f]) in
              case lock_test self os of
                Inl e \<Rightarrow> (t2, Stopped e)
              | Inr (False, _) \<Rightarrow> (t2, Stopped fatal)
              | Inr (True, _) \<Rightarrow>
                  let t3 = t2 @ [G_thread_init, G_type_init, Fo_RepOpen, Agent_list_init,
                                 Host_list_init, Job_list_init, Load_foss_config];
                      s0 = \<lparr>events = [], procs = \<lparr>zombies = [], running = 0\<rparr>,
                            agents_now = 0, alarm = None,
                            s_port = (case port_option opts of None \<Rightarrow> - 1 | Some p \<Rightarrow> p),
                            config_trace = []\<rparr>
                  in case load_foss_config k cfg s0 of
                       Inl e \<Rightarrow> (t3, Stopped e)
                     | Inr s1 \<Rightarrow>
                         let t4 = t3 @ [Interface_init, Database_init, Load_agent_config] in
                         case load_agent_config cfg s1 of
                           Inl e \<Rightarrow> (t4, Stopped e)
                         | Inr s2 \<Rightarrow>
                             (t4 @ install_handlers
                                @ (if db_reset opts then [Database_reset_queue] else [])
                                @ (if test_die opts then [Set_closing] else [])
                                @ [Event_signal Database_update_event, Alarm (check_time k),
                                   Event_loop_enter],
                              Entered_event_loop))"

subsection \<open>Example states\<close>

text \<open>
  A host with four slots and three agent types, of which \<open>migrate\<close> is exclusive. In
  \<open>idle\<close> nothing runs; in \<open>busy\<close> one agent runs; in \<open>full\<close> the only slot of
  the host is taken.
\<close>

definition copyright_job :: job where
  "copyright_job = \<lparr>job_id = 1, job_type = ''copyright''\<rparr>"

definition migrate_job :: job where
  "migrate_job = \<lparr>job_id = 2, job_type = ''migrate''\<rparr>"

definition nomos_job :: job where
  "nomos_job = \<lparr>job_id = 3, job_type = ''nomos''\<rparr>"

definition pkgagent_job :: job where
  "pkgagent_job = \<lparr>job_id = 4, job_type = ''nomos''\<rparr>"

definition idle :: sched where
  "idle = \<lparr>closing = False, deferred = None, lockout = False, job_queue = [], claimed = [],
     agents = [],
     host_list = [\<lparr>host_name = ''localhost'', max_agents = 4, running_agents = 0\<rparr>],
     meta_agents = [\<lparr>meta_name = ''copyright'', exclusive = False\<rparr>,
                    \<lparr>meta_name = ''migrate'', exclusive = True\<rparr>,
                    \<lparr>meta_name = ''nomos'', exclusive = False\<rparr>],
     loop_terminated = False, calls = []\<rparr>"

definition busy :: sched where
  "busy = idle\<lparr>agents := [\<lparr>agent_job = nomos_job, agent_host = ''localhost''\<rparr>],
     host_list := [\<lparr>host_name = ''localhost'', max_agents = 4, running_agents = 1\<rparr>]\<rparr>"

definition full :: sched where
  "full = idle\<lparr>agents := [\<lparr>agent_job = nomos_job, agent_host = ''localhost''\<rparr>],
     host_list := [\<lparr>host_name = ''localhost'', max_agents = 1, running_agents = 1\<rparr>]\<rparr>"

text \<open>
  No lock; and the lock of the live process 1234, as \<open>lock_scheduler\<close> writes it.
\<close>

definition no_lock :: lock_os where
  "no_lock = \<lparr>shm = None, shm_readable = True, unlink_ok = True, write_ok = True,
     alive = [1, 1234, 5678]\<rparr>"

definition locked_by_1234 :: lock_os where
  "locked_by_1234 = no_lock\<lparr>shm := Some (''000001234'' @ [CHR 0x00])\<rparr>"

text \<open>A build, a configuration, a command line without options, and a system where
  every call of \<open>set_usr_grp\<close> succeeds.\<close>

definition build :: constants where
  "build = \<lparr>check_time = 60, agent_dir = ''/usr/lib/fossology/agents''\<rparr>"

definition conf :: config where
  "conf = \<lparr>load_ok = True, conf_port = 24693,
     conf_hosts = [(''localhost'', Some (''localhost'', ''AGENT_DIR'', 10))],
     agent_dir_ok = True,
     conf_agents = [(''copyright'', ''copyright'', 2, False), (''migrate'', ''migrate'', 1, True)]\<rparr>"

definition no_options :: options where
  "no_options = \<lparr>parse_error = False, s_daemon = False, db_init = False, ki_sched = False,
     log_file = None, port_option = None, db_reset = False, test_die = False\<rparr>"

definition fossy :: priv_env where
  "fossy = \<lparr>group_entry = Some 33, setgroups_ok = True, setgid_ok = True, setegid_ok = True,
     passwd_entry = Some 33, setuid_ok = True, seteuid_ok = True,
     early_event_signal = None\<rparr>"

definition quiet :: sig_state where
  "quiet = \<lparr>events = [], procs = \<lparr>zombies = [], running = 0\<rparr>, agents_now = 0,
     alarm = None, s_port = 24693, config_trace = []\<rparr>"

section \<open>Properties\<close>

subsection \<open>The SIGCHLD handler\<close>

lemma reap_all:
  "\<forall>z \<in> set zs. 0 < z \<Longrightarrow> idx + length zs \<le> length pl \<Longrightarrow>
   reap (ch\<lparr>zombies := zs\<rparr>) pl idx =
     Inr (take idx pl @ zs @ drop (idx + length zs) pl, idx + length zs,
          ch\<lparr>zombies := []\<rparr>)"
proof (induction zs arbitrary: pl idx)
  case Nil
  show ?case
    by (subst reap.simps) (simp add: waitpid_def)
next
  case (Cons z zs)
  from Cons.prems have z: "0 < z" and zs: "\<forall>z \<in> set zs. 0 < z"
    and idx: "idx < length pl" and len: "Suc idx + length zs \<le> length (pl[idx := z])"
    by simp_all
  have step: "reap (ch\<lparr>zombies := z # zs\<rparr>) pl idx
      = reap (ch\<lparr>zombies := zs\<rparr>) (pl[idx := z]) (Suc idx)"
    using z idx by (subst reap.simps) (simp add: waitpid_def)
  have upd: "take (Suc idx) (pl[idx := z]) = take idx pl @ [z]"
    using idx by (simp add: take_Suc_conv_app_nth)
  show ?case
    unfolding step Cons.IH [OF zs len] upd by simp
qed


lemma reap_from_start:
  assumes "\<forall>z \<in> set (zombies ch). 0 < z" and "length (zombies ch) \<le> Suc n"
  shows "reap ch (replicate (Suc n) 0) 0 =
    Inr (zombies ch @ replicate (Suc n - length (zombies ch)) 0, length (zombies ch),
         ch\<lparr>zombies := []\<rparr>)"
proof -
  have "reap (ch\<lparr>zombies := zombies ch\<rparr>) (replicate (Suc n) 0) 0 =
    Inr (take 0 (replicate (Suc n) 0) @ zombies ch
           @ drop (0 + length (zombies ch)) (replicate (Suc n) 0),
         0 + length (zombies ch), ch\<lparr>zombies := []\<rparr>)"
    using assms by (intro reap_all) simp_all
  moreover have "drop (length (zombies ch)) (replicate (Suc n) (0::int))
     = replicate (Suc n - length (zombies ch)) 0"
    by (rule drop_replicate)
  ultimately show ?thesis by simp
qed




text \<open>
  C10. When at most \<open>num_agents()\<close> children are reaped, the loop ends with an index
  \<open>idx \<le> num_agents()\<close>: every store went to a slot below \<open>idx\<close>, inside the
  \<open>num_agents() + 1\<close> slots, so no store is out of bounds; the array handed to
  \<open>agent_death_event\<close> has a zero at \<open>idx\<close> and no zero before it.
\<close>

theorem chld_sig_in_bounds_zero_terminated:
  assumes "\<forall>z \<in> set (zombies (procs s)). 0 < z"
    and "length (zombies (procs s)) \<le> agents_now s"
  shows "\<exists>pl idx ch'.
     reap (procs s) (replicate (agents_now s + 1) 0) 0 = Inr (pl, idx, ch') \<and>
     idx \<le> agents_now s \<and> length pl = agents_now s + 1 \<and>
     pl ! idx = 0 \<and> (\<forall>i < idx. pl ! i \<noteq> 0) \<and>
     chld_sig s = Inr (event_signal (Agent_death_event pl) (s\<lparr>procs := ch'\<rparr>))"
proof -
  let ?zs = "zombies (procs s)"
  let ?pl = "?zs @ replicate (Suc (agents_now s) - length ?zs) 0"
  have r: "reap (procs s) (replicate (Suc (agents_now s)) 0) 0 =
      Inr (?pl, length ?zs, (procs s)\<lparr>zombies := []\<rparr>)"
    using assms by (intro reap_from_start) simp_all
  have z: "?pl ! length ?zs = 0"
    using assms(2) by (simp add: nth_append)
  have nz: "\<forall>i < length ?zs. ?pl ! i \<noteq> 0"
    using assms(1) by (auto simp: nth_append dest!: nth_mem)
  have len: "length ?pl = agents_now s + 1"
    using assms(2) by simp
  have c: "chld_sig s = Inr (event_signal (Agent_death_event ?pl)
      (s\<lparr>procs := (procs s)\<lparr>zombies := []\<rparr>\<rparr>))"
    using r by (simp add: chld_sig_def)
  from r z nz len c assms(2) show ?thesis
    by (intro exI [of _ ?pl] exI [of _ "length ?zs"] exI [of _ "(procs s)\<lparr>zombies := []\<rparr>"])
       simp
qed

theorem chld_sig_in_bounds_zero_terminated_witness:
  "\<exists>pl idx ch'.
     reap \<lparr>zombies = [7, 9], running = 0\<rparr> (replicate (2 + 1) 0) 0 = Inr (pl, idx, ch') \<and>
     idx \<le> 2 \<and> length pl = 2 + 1 \<and> pl ! idx = 0 \<and> (\<forall>i < idx. pl ! i \<noteq> 0) \<and>
     chld_sig \<lparr>events = [], procs = \<lparr>zombies = [7, 9], running = 0\<rparr>,
               agents_now = 2, alarm = None, s_port = 0, config_trace = []\<rparr>
       = Inr (event_signal (Agent_death_event pl)
           \<lparr>events = [], procs = ch', agents_now = 2, alarm = None, s_port = 0, config_trace = []\<rparr>)"
  using chld_sig_in_bounds_zero_terminated [of "\<lparr>events = [],
      procs = \<lparr>zombies = [7, 9], running = 0\<rparr>,
      agents_now = 2, alarm = None, s_port = 0, config_trace = []\<rparr>"]
  by simp

subsection \<open>The scheduling policy\<close>

lemmas example_defs = idle_def busy_def full_def copyright_job_def migrate_job_def
  nomos_job_def pkgagent_job_def

lemmas tick_defs = update_scheduler_def num_agents_def active_jobs_def next_job_def
  is_exclusive_def get_host_def agent_init_def event_loop_terminate_def Let_def

lemma next_job_frame:
  "next_job s = (r, s') \<Longrightarrow>
     closing s' = closing s \<and> lockout s' = lockout s \<and> deferred s' = deferred s \<and>
     meta_agents s' = meta_agents s \<and> loop_terminated s' = loop_terminated s"
  by (auto simp: next_job_def split: list.splits)

lemma agent_init_frame:
  "closing (agent_init h x s) = closing s \<and> lockout (agent_init h x s) = lockout s \<and>
   deferred (agent_init h x s) = deferred s \<and> meta_agents (agent_init h x s) = meta_agents s \<and>
   loop_terminated (agent_init h x s) = loop_terminated s \<and>
   job_queue (agent_init h x s) = job_queue s \<and>
   calls (agent_init h x s) = calls s @ [Agent_init (map_option host_name h) x]"
  by (simp add: agent_init_def Let_def split: option.splits)

lemma is_exclusive_cong:
  "meta_agents s' = meta_agents s \<Longrightarrow> is_exclusive t s' = is_exclusive t s"
  by (simp add: is_exclusive_def)

lemma pull_jobs_frame:
  "closing (pull_jobs s) = closing s \<and> lockout (pull_jobs s) = lockout s \<and>
   meta_agents (pull_jobs s) = meta_agents s \<and> loop_terminated (pull_jobs s) = loop_terminated s"
proof (induction s rule: pull_jobs.induct)
  case (1 s)
  obtain r s' where n: "next_job s = (r, s')" by (cases "next_job s")
  note f = next_job_frame [OF n]
  show ?case
  proof (cases r)
    case None
    with n f show ?thesis by (subst (1 2 3 4) pull_jobs.simps) simp
  next
    case (Some x)
    show ?thesis
    proof (cases "is_exclusive (job_type x) s'")
      case True
      with n f Some show ?thesis by (subst (1 2 3 4) pull_jobs.simps) simp
    next
      case False
      let ?s2 = "agent_init (get_host 1 s') x (s'\<lparr>deferred := Some x\<rparr>)"
      have eq: "pull_jobs s = pull_jobs ?s2"
        using n Some False by (subst pull_jobs.simps) simp
      have ih: "closing (pull_jobs ?s2) = closing ?s2 \<and> lockout (pull_jobs ?s2) = lockout ?s2 \<and>
         meta_agents (pull_jobs ?s2) = meta_agents ?s2 \<and>
         loop_terminated (pull_jobs ?s2) = loop_terminated ?s2"
        using "1.IH" [OF n [symmetric] Some False] .
      show ?thesis
        unfolding eq using ih f by (simp add: agent_init_frame)
    qed
  qed
qed

lemma pulls_append: "pulls (cs @ ds) = pulls cs @ pulls ds"
  by (induction cs rule: pulls.induct) simp_all

lemma launches_append: "launches (cs @ ds) = launches cs @ launches ds"
  by (induction cs rule: launches.induct) simp_all

lemma pull_jobs_until_exclusive:
  assumes "job_queue s = pre @ x # rest"
    and "\<forall>p \<in> set pre. \<not> is_exclusive (job_type p) s"
    and "is_exclusive (job_type x) s"
  shows "deferred (pull_jobs s) = Some x \<and> job_queue (pull_jobs s) = rest \<and>
     pulls (calls (pull_jobs s)) = pulls (calls s) @ map Some (pre @ [x]) \<and>
     launches (calls (pull_jobs s)) = launches (calls s) @ pre"
  using assms
proof (induction pre arbitrary: s)
  case Nil
  then have q: "job_queue s = x # rest" by simp
  have ex: "is_exclusive (job_type x)
      (s\<lparr>job_queue := rest, claimed := claimed s @ [x], calls := calls s @ [Next_job (Some x)]\<rparr>)"
    using Nil.prems(3) by (simp add: is_exclusive_def)
  have "pull_jobs s = s\<lparr>job_queue := rest, claimed := claimed s @ [x],
      calls := calls s @ [Next_job (Some x)], deferred := Some x\<rparr>"
    using q ex by (subst pull_jobs.simps) (simp add: next_job_def)
  then show ?case by (simp add: pulls_append launches_append)
next
  case (Cons p pre)
  let ?s1 = "s\<lparr>job_queue := pre @ x # rest, claimed := claimed s @ [p],
      calls := calls s @ [Next_job (Some p)]\<rparr>"
  let ?s2 = "agent_init (get_host 1 ?s1) p (?s1\<lparr>deferred := Some p\<rparr>)"
  have n: "next_job s = (Some p, ?s1)"
    using Cons.prems(1) by (simp add: next_job_def)
  have nex: "\<not> is_exclusive (job_type p) ?s1"
    using Cons.prems(2) by (simp add: is_exclusive_def)
  have eq: "pull_jobs s = pull_jobs ?s2"
    using n nex by (subst pull_jobs.simps) simp
  have m: "meta_agents ?s2 = meta_agents s"
    by (simp add: agent_init_frame)
  have q2: "job_queue ?s2 = pre @ x # rest"
    by (simp add: agent_init_frame)
  have c2: "calls ?s2 = calls s @ [Next_job (Some p), Agent_init (map_option host_name (get_host 1 ?s1)) p]"
    by (simp add: agent_init_frame)
  have a2: "\<forall>q \<in> set pre. \<not> is_exclusive (job_type q) ?s2"
    using Cons.prems(2) is_exclusive_cong [OF m] by simp
  have a3: "is_exclusive (job_type x) ?s2"
    using Cons.prems(3) is_exclusive_cong [OF m] by simp
  show ?case
    unfolding eq using Cons.IH [OF q2 a2 a3] c2
    by (simp add: pulls_append launches_append)
qed

text \<open>
  C5. A tick that finds \<open>closing\<close> set, no live agent and no active job calls
  \<open>event_loop_terminate\<close> and returns: the state changes in nothing else, so no job is
  pulled and none is launched. A tick in which one of the three conditions fails leaves
  the termination flag of the loop as it was.
\<close>

theorem update_scheduler_closing_terminates:
  "(closing s \<and> num_agents s = 0 \<and> active_jobs s = 0 \<longrightarrow>
      update_scheduler s = s\<lparr>loop_terminated := True\<rparr>) \<and>
   (\<not> (closing s \<and> num_agents s = 0 \<and> active_jobs s = 0) \<longrightarrow>
      loop_terminated (update_scheduler s) = loop_terminated s)"
proof (intro conjI impI)
  assume "closing s \<and> num_agents s = 0 \<and> active_jobs s = 0"
  then show "update_scheduler s = s\<lparr>loop_terminated := True\<rparr>"
    by (simp add: update_scheduler_def event_loop_terminate_def)
next
  assume "\<not> (closing s \<and> num_agents s = 0 \<and> active_jobs s = 0)"
  then show "loop_terminated (update_scheduler s) = loop_terminated s"
    by (auto simp: update_scheduler_def Let_def pull_jobs_frame agent_init_frame
             split: option.splits)
qed

theorem update_scheduler_closing_terminates_witness:
  "update_scheduler (idle\<lparr>closing := True, job_queue := [copyright_job]\<rparr>)
     = idle\<lparr>closing := True, job_queue := [copyright_job], loop_terminated := True\<rparr> \<and>
   \<not> loop_terminated (update_scheduler (busy\<lparr>closing := True\<rparr>))"
  using update_scheduler_closing_terminates [of "idle\<lparr>closing := True, job_queue := [copyright_job]\<rparr>"]
    update_scheduler_closing_terminates [of "busy\<lparr>closing := True\<rparr>"]
  by (simp add: example_defs num_agents_def active_jobs_def)

lemma agent_init_lockout_overwritten:
  "(agent_init h x (s\<lparr>lockout := b\<rparr>))\<lparr>lockout := True, deferred := None\<rparr>
     = (agent_init h x s)\<lparr>lockout := True, deferred := None\<rparr>"
  by (simp add: agent_init_def Let_def split: option.splits)

lemma tick_with_deferred_job:
  assumes run: "\<not> (closing s \<and> num_agents s = 0 \<and> active_jobs s = 0)"
    and d: "deferred s = Some x"
  shows "update_scheduler s =
         (if num_agents s = 0 \<and> active_jobs s = 0
          then (agent_init (get_host 1 s) x s)\<lparr>lockout := True, deferred := None\<rparr>
          else s)"
proof (cases "num_agents s = 0 \<and> active_jobs s = 0")
  case True
  with run have nc: "\<not> closing s" by simp
  have g: "\<And>n. get_host n (s\<lparr>lockout := False\<rparr>) = get_host n s"
    by (simp add: get_host_def)
  show ?thesis
    using True nc d
    by (simp add: update_scheduler_def g agent_init_lockout_overwritten)
next
  case False
  then show ?thesis
    using d by (auto simp: update_scheduler_def Let_def)
qed

lemma tick_pulls_exclusive_job:
  assumes run: "\<not> (closing s \<and> num_agents s = 0 \<and> active_jobs s = 0)"
    and d: "deferred s = None"
    and l: "lockout s \<longrightarrow> num_agents s = 0 \<and> active_jobs s = 0"
    and q: "job_queue s = pre @ x # rest"
    and npre: "\<forall>p \<in> set pre. \<not> is_exclusive (job_type p) s"
    and ex: "is_exclusive (job_type x) s"
  shows "job_queue (update_scheduler s) = rest"
    and "pulls (calls (update_scheduler s)) = pulls (calls s) @ map Some (pre @ [x])"
    and "\<not> (num_agents s = 0 \<and> active_jobs s = 0) \<Longrightarrow>
          deferred (update_scheduler s) = Some x \<and> \<not> lockout (update_scheduler s) \<and>
          launches (calls (update_scheduler s)) = launches (calls s) @ pre"
    and "num_agents s = 0 \<and> active_jobs s = 0 \<and> pre = [] \<Longrightarrow>
          deferred (update_scheduler s) = None \<and> lockout (update_scheduler s) \<and>
          launches (calls (update_scheduler s)) = launches (calls s) @ [x]"
proof -
  define s1 where "s1 = (if lockout s \<and> num_agents s = 0 \<and> active_jobs s = 0
                         then s\<lparr>lockout := False\<rparr> else s)"
  have s1: "deferred s1 = None" "\<not> lockout s1" "job_queue s1 = pre @ x # rest"
    "calls s1 = calls s" "meta_agents s1 = meta_agents s"
    using d l q by (auto simp: s1_def)
  have ex1: "\<forall>p \<in> set pre. \<not> is_exclusive (job_type p) s1" "is_exclusive (job_type x) s1"
    using npre ex is_exclusive_cong [OF s1(5)] by simp_all
  note p = pull_jobs_until_exclusive [OF s1(3) ex1]
  have lk: "\<not> lockout (pull_jobs s1)"
    using s1(2) by (simp add: pull_jobs_frame)
  have u: "update_scheduler s =
      (if num_agents s = 0 \<and> active_jobs s = 0
       then (agent_init (get_host 1 (pull_jobs s1)) x (pull_jobs s1))\<lparr>lockout := True, deferred := None\<rparr>
       else pull_jobs s1)"
    using run s1(1,2) p unfolding update_scheduler_def Let_def s1_def by auto
  show "job_queue (update_scheduler s) = rest"
    unfolding u using p by (simp add: agent_init_frame)
  show "pulls (calls (update_scheduler s)) = pulls (calls s) @ map Some (pre @ [x])"
    unfolding u using p s1(4) by (simp add: agent_init_frame pulls_append)
  show "deferred (update_scheduler s) = Some x \<and> \<not> lockout (update_scheduler s) \<and>
          launches (calls (update_scheduler s)) = launches (calls s) @ pre"
    if n: "\<not> (num_agents s = 0 \<and> active_jobs s = 0)"
  proof -
    have "update_scheduler s = pull_jobs s1"
      by (subst u) (rule if_not_P [OF n])
    then show ?thesis
      using p lk s1(4) by simp
  qed
  show "deferred (update_scheduler s) = None \<and> lockout (update_scheduler s) \<and>
          launches (calls (update_scheduler s)) = launches (calls s) @ [x]"
    if i: "num_agents s = 0 \<and> active_jobs s = 0 \<and> pre = []"
  proof -
    from i have i0: "num_agents s = 0 \<and> active_jobs s = 0" by simp
    have "update_scheduler s =
        (agent_init (get_host 1 (pull_jobs s1)) x (pull_jobs s1))\<lparr>lockout := True, deferred := None\<rparr>"
      by (subst u) (rule if_P [OF i0])
    then show ?thesis
      using p s1(4) i by (simp add: agent_init_frame launches_append)
  qed
qed

text \<open>
  C1, as amended. In a tick that does not take the closing branch: when the slot is
  empty, lockout is off once the second step is done, and the queue delivers the jobs
  \<open>pre\<close>, none exclusive, and then the exclusive job \<open>x\<close>, the tick pulls exactly
  \<open>pre\<close> and \<open>x\<close> and leaves the rest of the queue alone. If the counts read on entry
  are not both zero, \<open>x\<close> stays in the slot, lockout stays off and only \<open>pre\<close> was
  launched. If they are both zero and \<open>x\<close> was the first job pulled, \<open>x\<close> is launched
  in this same tick, lockout is set and the slot is empty again. A job \<open>y\<close> found in
  the slot on entry is launched on \<open>get_host(1)\<close>, with lockout set and the slot
  cleared, when both counts read on entry are zero, and otherwise the tick changes
  nothing.
\<close>

theorem exclusive_job_deferred_until_idle:
  assumes run: "\<not> (closing s \<and> num_agents s = 0 \<and> active_jobs s = 0)"
  shows
   "(deferred s = None \<and> (lockout s \<longrightarrow> num_agents s = 0 \<and> active_jobs s = 0) \<and>
     job_queue s = pre @ x # rest \<and> (\<forall>p \<in> set pre. \<not> is_exclusive (job_type p) s) \<and>
     is_exclusive (job_type x) s \<longrightarrow>
       job_queue (update_scheduler s) = rest \<and>
       pulls (calls (update_scheduler s)) = pulls (calls s) @ map Some (pre @ [x]) \<and>
       (\<not> (num_agents s = 0 \<and> active_jobs s = 0) \<longrightarrow>
          deferred (update_scheduler s) = Some x \<and> \<not> lockout (update_scheduler s) \<and>
          launches (calls (update_scheduler s)) = launches (calls s) @ pre) \<and>
       (num_agents s = 0 \<and> active_jobs s = 0 \<and> pre = [] \<longrightarrow>
          deferred (update_scheduler s) = None \<and> lockout (update_scheduler s) \<and>
          launches (calls (update_scheduler s)) = launches (calls s) @ [x])) \<and>
    (deferred s = Some y \<longrightarrow>
       update_scheduler s =
         (if num_agents s = 0 \<and> active_jobs s = 0
          then (agent_init (get_host 1 s) y s)\<lparr>lockout := True, deferred := None\<rparr>
          else s))"
  using tick_with_deferred_job [OF run, of y] tick_pulls_exclusive_job [OF run, of pre x rest]
  by blast

theorem exclusive_job_deferred_until_idle_witness:
  "(let s = busy\<lparr>job_queue := [copyright_job, migrate_job, nomos_job]\<rparr> in
      job_queue (update_scheduler s) = [nomos_job] \<and>
      pulls (calls (update_scheduler s)) = [Some copyright_job, Some migrate_job] \<and>
      deferred (update_scheduler s) = Some migrate_job \<and> \<not> lockout (update_scheduler s) \<and>
      launches (calls (update_scheduler s)) = [copyright_job]) \<and>
   (let s = idle\<lparr>job_queue := [migrate_job, nomos_job]\<rparr> in
      job_queue (update_scheduler s) = [nomos_job] \<and>
      pulls (calls (update_scheduler s)) = [Some migrate_job] \<and>
      deferred (update_scheduler s) = None \<and> lockout (update_scheduler s) \<and>
      launches (calls (update_scheduler s)) = [migrate_job]) \<and>
   (let s = idle\<lparr>deferred := Some migrate_job, job_queue := [nomos_job]\<rparr> in
      update_scheduler s
        = (agent_init (get_host 1 s) migrate_job s)\<lparr>lockout := True, deferred := None\<rparr>) \<and>
   (let s = busy\<lparr>deferred := Some migrate_job, claimed := [migrate_job],
              job_queue := [pkgagent_job]\<rparr> in
      update_scheduler s = s)"
  using
    exclusive_job_deferred_until_idle
      [of "busy\<lparr>job_queue := [copyright_job, migrate_job, nomos_job]\<rparr>"
          "[copyright_job]" migrate_job "[nomos_job]" migrate_job]
    exclusive_job_deferred_until_idle
      [of "idle\<lparr>job_queue := [migrate_job, nomos_job]\<rparr>" "[]" migrate_job "[nomos_job]" migrate_job]
    exclusive_job_deferred_until_idle
      [of "idle\<lparr>deferred := Some migrate_job, job_queue := [nomos_job]\<rparr>"
          "[]" migrate_job "[]" migrate_job]
    exclusive_job_deferred_until_idle
      [of "busy\<lparr>deferred := Some migrate_job, claimed := [migrate_job],
              job_queue := [pkgagent_job]\<rparr>"
          "[]" migrate_job "[]" migrate_job]
  by (simp add: example_defs num_agents_def active_jobs_def is_exclusive_def)

text \<open>
  C1 as stated fails: with the slot empty, lockout off and nothing running, the tick that
  pulls the exclusive job launches it at once, in the same tick, and leaves the slot
  empty.
\<close>

theorem exclusive_job_launched_in_same_tick:
  "deferred (idle\<lparr>job_queue := [migrate_job, nomos_job]\<rparr>) = None \<and>
   \<not> lockout (idle\<lparr>job_queue := [migrate_job, nomos_job]\<rparr>) \<and>
   fst (next_job (idle\<lparr>job_queue := [migrate_job, nomos_job]\<rparr>)) = Some migrate_job \<and>
   is_exclusive (job_type migrate_job) (idle\<lparr>job_queue := [migrate_job, nomos_job]\<rparr>) \<and>
   calls (update_scheduler (idle\<lparr>job_queue := [migrate_job, nomos_job]\<rparr>))
     = [Next_job (Some migrate_job), Agent_init (Some ''localhost'') migrate_job] \<and>
   deferred (update_scheduler (idle\<lparr>job_queue := [migrate_job, nomos_job]\<rparr>)) = None \<and>
   map agent_job (agents (update_scheduler (idle\<lparr>job_queue := [migrate_job, nomos_job]\<rparr>)))
     = [migrate_job]"
  by (simp add: example_defs tick_defs pull_jobs.simps)

text \<open>
  C2 at a failing input: nothing runs and the queue holds an ordinary job and then an
  exclusive one. The tick launches the first, pulls the second, and, since the counts it
  tests were read on entry, launches the second too and sets lockout: two agents are
  live under lockout, one of them of a type that is not exclusive.
\<close>

theorem lockout_with_two_live_agents:
  "lockout (update_scheduler (idle\<lparr>job_queue := [copyright_job, migrate_job]\<rparr>)) \<and>
   map agent_job (agents (update_scheduler (idle\<lparr>job_queue := [copyright_job, migrate_job]\<rparr>)))
     = [copyright_job, migrate_job] \<and>
   \<not> is_exclusive (job_type copyright_job)
       (update_scheduler (idle\<lparr>job_queue := [copyright_job, migrate_job]\<rparr>)) \<and>
   calls (update_scheduler (idle\<lparr>job_queue := [copyright_job, migrate_job]\<rparr>))
     = [Next_job (Some copyright_job), Agent_init (Some ''localhost'') copyright_job,
        Next_job (Some migrate_job), Agent_init (Some ''localhost'') migrate_job]"
  by (simp add: example_defs tick_defs pull_jobs.simps)

text \<open>
  C3 at a failing input: the only host has no free slot, so \<open>get_host(1)\<close> is null. The
  tick hands each job to \<open>agent_init\<close> with the null host and goes on pulling until the
  queue is empty; no job goes back to the queue.
\<close>

theorem no_host_job_not_released:
  "get_host 1 (full\<lparr>job_queue := [copyright_job, pkgagent_job]\<rparr>) = None \<and>
   calls (update_scheduler (full\<lparr>job_queue := [copyright_job, pkgagent_job]\<rparr>))
     = [Next_job (Some copyright_job), Agent_init None copyright_job,
        Next_job (Some pkgagent_job), Agent_init None pkgagent_job, Next_job None] \<and>
   job_queue (update_scheduler (full\<lparr>job_queue := [copyright_job, pkgagent_job]\<rparr>)) = [] \<and>
   claimed (update_scheduler (full\<lparr>job_queue := [copyright_job, pkgagent_job]\<rparr>))
     = [copyright_job, pkgagent_job]"
  by (simp add: example_defs tick_defs pull_jobs.simps)

subsection \<open>The process lock\<close>

lemma digit_char_props:
  assumes "d < 10"
  shows "isdigit (digit_char d)" "digit_val (digit_char d) = int d"
    "\<not> isspace (digit_char d)" "digit_char d \<noteq> CHR ''-''" "digit_char d \<noteq> CHR ''+''"
proof -
  have o: "(of_char (digit_char d) :: nat) = 48 + d"
    using assms by (simp add: digit_char_def)
  show "isdigit (digit_char d)" using assms by (simp add: isdigit_def o)
  show "digit_val (digit_char d) = int d" by (simp add: digit_val_def o)
  show "\<not> isspace (digit_char d)" by (simp add: isspace_def o)
  show "digit_char d \<noteq> CHR ''-''"
  proof
    assume "digit_char d = CHR ''-''"
    then have "(of_char (digit_char d) :: nat) = of_char (CHR ''-'')" by simp
    then show False by (simp add: o)
  qed
  show "digit_char d \<noteq> CHR ''+''"
  proof
    assume "digit_char d = CHR ''+''"
    then have "(of_char (digit_char d) :: nat) = of_char (CHR ''+'')" by simp
    then show False by (simp add: o)
  qed
qed

lemma zero_char: "CHR ''0'' = digit_char 0"
proof -
  have "(of_char (CHR ''0'') :: nat) = of_char (digit_char 0)"
    by (simp add: digit_char_def)
  then show ?thesis by (simp only: of_char_eq_iff)
qed

lemma nul_not_digit: "\<not> isdigit (CHR 0x00)"
  by (simp add: isdigit_def)

lemma dec_digits: "c \<in> set (dec n) \<Longrightarrow> \<exists>d < 10. c = digit_char d"
proof (induction n rule: dec.induct)
  case (1 n)
  show ?case
  proof (cases "n < 10")
    case True
    with "1.prems" have "c = digit_char n" by (subst (asm) dec.simps) simp
    with True show ?thesis by blast
  next
    case False
    with "1.prems" have "c \<in> set (dec (n div 10)) \<or> c = digit_char (n mod 10)"
      by (subst (asm) dec.simps) auto
    then show ?thesis
    proof
      assume "c \<in> set (dec (n div 10))"
      with "1.IH" False show ?thesis by simp
    next
      assume c: "c = digit_char (n mod 10)"
      have "n mod 10 < 10" by simp
      with c show ?thesis by blast
    qed
  qed
qed

lemma dec_nonempty: "dec n \<noteq> []"
  by (subst dec.simps) simp

lemma atoi_digits_dec:
  "atoi_digits acc (dec n @ rest) = atoi_digits (acc * 10 ^ length (dec n) + int n) rest"
proof (induction n arbitrary: acc rest rule: dec.induct)
  case (1 n)
  show ?case
  proof (cases "n < 10")
    case True
    then have d: "dec n = [digit_char n]" by (subst dec.simps) simp
    show ?thesis
      using True by (simp add: d digit_char_props)
  next
    case False
    then have d: "dec n = dec (n div 10) @ [digit_char (n mod 10)]"
      by (subst dec.simps) simp
    have m: "n mod 10 < 10" by simp
    have step: "atoi_digits acc (dec (n div 10) @ digit_char (n mod 10) # rest)
        = atoi_digits (acc * 10 ^ length (dec (n div 10)) + int (n div 10))
            (digit_char (n mod 10) # rest)"
      using "1.IH" [OF False] .
    have ar: "(acc * 10 ^ length (dec (n div 10)) + int (n div 10)) * 10 + int (n mod 10)
        = acc * 10 ^ length (dec n) + int n"
    proof -
      have "int (n div 10) * 10 + int (n mod 10) = int n"
        by (simp add: zdiv_int zmod_int)
      then show ?thesis
        by (simp add: d algebra_simps)
    qed
    have "atoi_digits acc (dec n @ rest)
        = atoi_digits (acc * 10 ^ length (dec (n div 10)) + int (n div 10))
            (digit_char (n mod 10) # rest)"
      using step by (simp add: d)
    also have "\<dots> = atoi_digits ((acc * 10 ^ length (dec (n div 10)) + int (n div 10)) * 10
          + int (n mod 10)) rest"
      using digit_char_props(1,2) [OF m] by simp
    finally show ?thesis
      by (simp only: ar)
  qed
qed

lemma atoi_digits_zeros:
  "atoi_digits acc (replicate k (CHR ''0'') @ rest) = atoi_digits (acc * 10 ^ k) rest"
proof (induction k arbitrary: acc)
  case 0
  show ?case by simp
next
  case (Suc k)
  have z: "isdigit (CHR ''0'')" "digit_val (CHR ''0'') = 0"
    using digit_char_props(1,2) [of 0] by (simp_all add: zero_char)
  show ?case
    using Suc.IH [of "acc * 10"] z by (simp add: mult.assoc)
qed

lemma atoi_padded:
  "atoi (replicate k (CHR ''0'') @ dec n @ [CHR 0x00]) = int n"
proof -
  let ?t = "replicate k (CHR ''0'') @ dec n @ [CHR 0x00]"
  have v: "atoi_digits 0 ?t = int n"
    by (simp add: atoi_digits_zeros atoi_digits_dec nul_not_digit)
  obtain c cs where t: "replicate k (CHR ''0'') @ dec n = c # cs"
    using dec_nonempty [of n] by (cases "replicate k (CHR ''0'') @ dec n") auto
  have "c \<in> set (replicate k (CHR ''0'') @ dec n)"
    by (simp only: t) simp
  then have "c = CHR ''0'' \<or> c \<in> set (dec n)"
    by (auto split: if_splits)
  then have "\<exists>d < 10. c = digit_char d"
  proof
    assume "c = CHR ''0''"
    then have "(0::nat) < 10 \<and> c = digit_char 0" by (simp add: zero_char)
    then show ?thesis by blast
  next
    assume "c \<in> set (dec n)"
    then show ?thesis by (rule dec_digits)
  qed
  then obtain d where d: "d < 10" "c = digit_char d" by blast
  have t': "?t = c # cs @ [CHR 0x00]"
    using t by simp
  have "atoi ?t = atoi_digits 0 ?t"
    unfolding t' using digit_char_props(3,4,5) [OF d(1)] d(2) by simp
  with v show ?thesis by simp
qed

lemma sprintf_9_9d_nonneg:
  assumes "0 \<le> v" and "length (sprintf_9_9d v) \<le> 9"
  shows "sprintf_9_9d v = replicate (9 - length (dec (nat v))) (CHR ''0'') @ dec (nat v)"
    and "length (sprintf_9_9d v) = 9"
  using assms by (auto simp: sprintf_9_9d_def Let_def)

text \<open>
  C8, as amended. When there is no lock and \<open>lock_scheduler\<close> returns 0 for a process
  whose PID is at least 2, the object holds the PID as nine decimal digits, padded with
  zeros on the left, and a null byte; \<open>atoi\<close> reads the PID back from it; and
  \<open>get_locked_pid\<close>, while the process is alive, returns that PID and leaves the lock
  in place.
\<close>

theorem lock_round_trip:
  assumes "shm os = None" and "lock_scheduler self os = Inr (0, os')"
    and "2 \<le> self" and "self \<in> set (alive os')"
  shows "shm os' = Some (sprintf_9_9d self @ [CHR 0x00]) \<and>
     sprintf_9_9d self = replicate (9 - length (dec (nat self))) (CHR ''0'') @ dec (nat self) \<and>
     length (sprintf_9_9d self) = 9 \<and>
     atoi (sprintf_9_9d self @ [CHR 0x00]) = self \<and>
     get_locked_pid os' = (self, os')"
proof -
  let ?buf = "sprintf_9_9d self @ [CHR 0x00]"
  have g: "get_locked_pid os = (0, os)"
    using assms(1) by (simp add: get_locked_pid_def)
  have len: "length (sprintf_9_9d self) \<le> 9"
    using assms(1,2) g by (auto simp: lock_scheduler_def Let_def split: if_splits)
  have os': "os' = os\<lparr>shm := Some ?buf, shm_readable := True\<rparr>"
    using assms(1,2) g by (auto simp: lock_scheduler_def Let_def split: if_splits)
  have nn: "0 \<le> self" using assms(3) by simp
  note f = sprintf_9_9d_nonneg [OF nn len]
  have a: "atoi ?buf = self"
  proof -
    have "atoi ?buf
        = atoi (replicate (9 - length (dec (nat self))) (CHR ''0'') @ dec (nat self) @ [CHR 0x00])"
      by (subst f(1)) simp
    also have "\<dots> = int (nat self)"
      by (rule atoi_padded)
    finally show ?thesis using nn by simp
  qed
  have "get_locked_pid os' = (self, os')"
    using assms(3,4) a f(2) by (simp add: get_locked_pid_def os')
  with os' f a show ?thesis by simp
qed

lemma sprintf_1234: "sprintf_9_9d 1234 = ''000001234''"
  by code_simp

lemma sprintf_1: "sprintf_9_9d 1 = ''000000001''"
  by code_simp

lemma atoi_1234: "atoi (''000001234'' @ [CHR 0x00]) = 1234"
  by code_simp

lemma atoi_1: "atoi (''000000001'' @ [CHR 0x00]) = 1"
  by code_simp

lemma lock_1234: "lock_scheduler 1234 no_lock = Inr (0, locked_by_1234)"
  by (simp add: lock_scheduler_def get_locked_pid_def no_lock_def locked_by_1234_def sprintf_1234)

theorem lock_round_trip_witness:
  "shm no_lock = None \<and> lock_scheduler 1234 no_lock = Inr (0, locked_by_1234) \<and>
   1234 \<in> set (alive locked_by_1234) \<and>
   shm locked_by_1234 = Some (sprintf_9_9d 1234 @ [CHR 0x00]) \<and>
   length (sprintf_9_9d 1234) = 9 \<and>
   atoi (sprintf_9_9d 1234 @ [CHR 0x00]) = 1234 \<and>
   get_locked_pid locked_by_1234 = (1234, locked_by_1234)"
proof -
  have h1: "shm no_lock = None"
    by (simp add: no_lock_def)
  have h3: "(2::int) \<le> 1234"
    by simp
  have h4: "1234 \<in> set (alive locked_by_1234)"
    by (simp add: no_lock_def locked_by_1234_def)
  from lock_round_trip [OF h1 lock_1234 h3 h4] h1 lock_1234 h4
  show ?thesis by blast
qed

text \<open>
  C8 as stated fails for the PID 1: \<open>lock_scheduler\<close> succeeds and writes the PID, but
  \<open>get_locked_pid\<close> takes a value below 2 for an invalid lock, removes the object and
  returns 0, although process 1 is alive.
\<close>

theorem lock_of_pid_1_not_read_back:
  "lock_scheduler 1 no_lock = Inr (0, no_lock\<lparr>shm := Some (''000000001'' @ [CHR 0x00])\<rparr>) \<and>
   1 \<in> set (alive no_lock) \<and>
   get_locked_pid (no_lock\<lparr>shm := Some (''000000001'' @ [CHR 0x00])\<rparr>) = (0, no_lock)"
  using atoi_1
  by (simp add: lock_scheduler_def get_locked_pid_def no_lock_def sprintf_1 shm_unlink_def)

subsection \<open>Start-up\<close>

lemma get_locked_pid_1234: "get_locked_pid locked_by_1234 = (1234, locked_by_1234)"
  using atoi_1234 by (simp add: get_locked_pid_def locked_by_1234_def no_lock_def)

lemma lock_test_first: "lock_test 1234 no_lock = Inr (True, locked_by_1234)"
  by (simp add: lock_test_def lock_1234 get_locked_pid_1234)

text \<open>
  C4 at a failing input: process 1234 is alive and holds the lock, process 5678 starts.
  \<open>lock_scheduler\<close> returns 1234, which is positive, so the test in \<open>main\<close> does not
  call \<open>FATAL\<close>: the second process initialises every collaborator, installs the six
  signal handlers and enters the event loop.
\<close>

theorem second_scheduler_goes_on:
  "lock_scheduler 5678 locked_by_1234 = Inr (1234, locked_by_1234) \<and>
   lock_test 5678 locked_by_1234 = Inr (True, locked_by_1234) \<and>
   main build conf no_options fossy 5678 locked_by_1234 =
     ([G_thread_init, G_type_init, Fo_RepOpen, Agent_list_init, Host_list_init, Job_list_init,
       Load_foss_config, Interface_init, Database_init, Load_agent_config,
       Signal SIGCHLD True, Signal SIGALRM False, Signal SIGTERM False,
       Signal SIGQUIT False, Signal SIGINT False, Signal SIGHUP False,
       Event_signal Database_update_event, Alarm 60, Event_loop_enter],
      Entered_event_loop)"
proof -
  have l: "lock_scheduler 5678 locked_by_1234 = Inr (1234, locked_by_1234)"
    by (simp add: lock_scheduler_def get_locked_pid_1234)
  have t: "lock_test 5678 locked_by_1234 = Inr (True, locked_by_1234)"
    by (simp add: lock_test_def l)
  have p: "set_usr_grp fossy
      = ([], Inr [Setgroups 33, Setgid 33, Setegid 33, Setuid 33, Seteuid 33])"
    by (simp add: set_usr_grp_def fossy_def)
  show ?thesis
    by (simp add: l t p main_def no_options_def conf_def build_def load_foss_config_def
        load_agent_config_def install_handlers_def Let_def)
qed

text \<open>
  C9, as amended. Let the configured group exist and the options parse. When \<open>setgid\<close>
  and \<open>setegid\<close> succeed and the lookup of the configured user, \<open>setuid\<close> or \<open>seteuid\<close>
  fails, \<open>set_usr_grp\<close> exits with the code \<open>-1\<close> and \<open>main\<close> has called no collaborator
  by then. When \<open>setgid\<close> or \<open>setegid\<close> fails, \<open>set_usr_grp\<close> does not return normally
  either and \<open>main\<close> has initialised no collaborator: its trace holds nothing but,
  possibly, the one call of \<open>event_signal\<close> that the source makes on this branch, and
  the process exits with the code \<open>-1\<close> when that call returns.
\<close>

theorem set_usr_grp_failure_is_fatal:
  assumes "group_entry e = Some gid" and "\<not> parse_error opts"
  shows
   "(setgid_ok e \<and> setegid_ok e \<and>
     (passwd_entry e = None \<or> \<not> setuid_ok e \<or> \<not> seteuid_ok e) \<longrightarrow>
       set_usr_grp e = ([], Inl (Exit (- 1))) \<and>
       main k cfg opts e self os = ([], Stopped (Exit (- 1)))) \<and>
    (\<not> setgid_ok e \<or> \<not> setegid_ok e \<longrightarrow>
       snd (set_usr_grp e)
         = Inl (case early_event_signal e of None \<Rightarrow> Exit (- 1) | Some st \<Rightarrow> st) \<and>
       snd (main k cfg opts e self os)
         = Stopped (case early_event_signal e of None \<Rightarrow> Exit (- 1) | Some st \<Rightarrow> st) \<and>
       set (fst (main k cfg opts e self os)) \<subseteq> {Event_signal Database_update_event})"
proof (intro conjI impI)
  assume h: "setgid_ok e \<and> setegid_ok e \<and>
     (passwd_entry e = None \<or> \<not> setuid_ok e \<or> \<not> seteuid_ok e)"
  show u: "set_usr_grp e = ([], Inl (Exit (- 1)))"
    using assms(1) h by (auto simp: set_usr_grp_def split: option.splits)
  show "main k cfg opts e self os = ([], Stopped (Exit (- 1)))"
    using assms(2) by (simp add: main_def u)
next
  assume h: "\<not> setgid_ok e \<or> \<not> setegid_ok e"
  have u: "set_usr_grp e =
      (case early_event_signal e of
         Some st \<Rightarrow> ([], Inl st)
       | None \<Rightarrow> ([Database_update_event], Inl (Exit (- 1))))"
    using assms(1) h by (auto simp: set_usr_grp_def)
  show "snd (set_usr_grp e)
      = Inl (case early_event_signal e of None \<Rightarrow> Exit (- 1) | Some st \<Rightarrow> st)"
    by (simp add: u split: option.splits)
  show "snd (main k cfg opts e self os)
      = Stopped (case early_event_signal e of None \<Rightarrow> Exit (- 1) | Some st \<Rightarrow> st)"
    using assms(2) by (simp add: main_def u split: option.splits)
  show "set (fst (main k cfg opts e self os)) \<subseteq> {Event_signal Database_update_event}"
    using assms(2) by (simp add: main_def u split: option.splits)
qed

theorem set_usr_grp_failure_is_fatal_witness:
  "group_entry (fossy\<lparr>setuid_ok := False\<rparr>) = Some 33 \<and>
   \<not> setuid_ok (fossy\<lparr>setuid_ok := False\<rparr>) \<and>
   set_usr_grp (fossy\<lparr>setuid_ok := False\<rparr>) = ([], Inl (Exit (- 1))) \<and>
   main build conf no_options (fossy\<lparr>setuid_ok := False\<rparr>) 1234 no_lock
     = ([], Stopped (Exit (- 1))) \<and>
   \<not> setgid_ok (fossy\<lparr>setgid_ok := False\<rparr>) \<and>
   snd (set_usr_grp (fossy\<lparr>setgid_ok := False\<rparr>)) = Inl (Exit (- 1)) \<and>
   snd (main build conf no_options (fossy\<lparr>setgid_ok := False\<rparr>) 1234 no_lock)
     = Stopped (Exit (- 1)) \<and>
   set (fst (main build conf no_options (fossy\<lparr>setgid_ok := False\<rparr>) 1234 no_lock))
     \<subseteq> {Event_signal Database_update_event}"
  using
    set_usr_grp_failure_is_fatal
      [of "fossy\<lparr>setuid_ok := False\<rparr>" 33 no_options build conf 1234 no_lock]
    set_usr_grp_failure_is_fatal
      [of "fossy\<lparr>setgid_ok := False\<rparr>" 33 no_options build conf 1234 no_lock]
  by (simp add: fossy_def no_options_def)

text \<open>
  C9 as stated fails: the result of \<open>setgroups\<close> is not looked at, so when only
  \<open>setgroups\<close> fails \<open>set_usr_grp\<close> returns normally and \<open>main\<close> goes on to the event
  loop.
\<close>

theorem failed_setgroups_is_ignored:
  "\<not> setgroups_ok (fossy\<lparr>setgroups_ok := False\<rparr>) \<and>
   set_usr_grp (fossy\<lparr>setgroups_ok := False\<rparr>)
     = ([], Inr [Setgroups 33, Setgid 33, Setegid 33, Setuid 33, Seteuid 33]) \<and>
   snd (main build conf no_options (fossy\<lparr>setgroups_ok := False\<rparr>) 1234 no_lock)
     = Entered_event_loop"
proof -
  have p: "set_usr_grp (fossy\<lparr>setgroups_ok := False\<rparr>)
      = ([], Inr [Setgroups 33, Setgid 33, Setegid 33, Setuid 33, Seteuid 33])"
    by (simp add: set_usr_grp_def fossy_def)
  have m: "snd (main build conf no_options (fossy\<lparr>setgroups_ok := False\<rparr>) 1234 no_lock)
     = Entered_event_loop"
    by (simp add: p lock_test_first main_def no_options_def conf_def build_def
        load_foss_config_def load_agent_config_def Let_def)
  show ?thesis
    using p m by (simp add: fossy_def)
qed

subsection \<open>The handler of the other signals\<close>

text \<open>
  C6 at a failing input: on SIGHUP \<open>prnt_sig\<close> calls \<open>load_config\<close> itself, so the
  registries are cleared and filled again inside the handler and no event is added to
  the FIFO; on SIGTERM it only adds an event.
\<close>

theorem sighup_reloads_in_the_handler:
  "prnt_sig build conf SIGHUP quiet = load_config build conf quiet \<and>
   prnt_sig build conf SIGHUP quiet =
     Inr (quiet\<lparr>config_trace :=
       [Host_list_clean, Fo_config_load_default, Set_port 24693,
        Host_init ''localhost'' ''localhost'' ''/usr/lib/fossology/agents'' 10,
        Agent_list_clean, Add_meta_agent ''copyright'' ''copyright'' 2 False,
        Add_meta_agent ''migrate'' ''migrate'' 1 True, For_each_host_test_agents]\<rparr>) \<and>
   prnt_sig build conf SIGTERM quiet = Inr (quiet\<lparr>events := [Scheduler_close_event]\<rparr>)"
  by (simp add: prnt_sig_def load_config_def load_foss_config_def load_agent_config_def
      event_signal_def quiet_def conf_def build_def Let_def)

end
